theory Spec2Isabelle
  imports Main
begin

section \<open>The data model of \<open>src/App.tsx\<close>\<close>

text \<open>
  The component \<open>App\<close> keeps the whole game in twelve \<open>useState\<close> cells. The
  model collects them in one record, \<open>Session\<close>; every handler of the component
  becomes a function from the session it reads (the values of the render whose closure
  it is) to the session it leaves behind (the values it passes to the setters).

  JavaScript numbers that only ever hold array positions are \<open>nat\<close>; \<open>timeLeft\<close>
  and \<open>spyCount\<close> take part in subtractions and comparisons and are \<open>int\<close>.
  The optional field \<open>isEliminated?: boolean\<close> is a \<open>bool option\<close>, \<open>None\<close>
  being the absent field. A value that may be \<open>undefined\<close> or \<open>null\<close> at run
  time is an \<open>option\<close> as well.
\<close>

datatype GameState = Setup | Reveal | Playing | Voting | Elimination_result | Summary

datatype Role = Role_player | Role_spy

datatype Victory = Victory_players | Victory_spies

record Player =
  id_p :: string
  name :: string
  role :: Role
  hasSeenRole :: bool
  isEliminated :: "bool option"

record Session =
  gameState :: GameState
  players :: "Player list"
  newPlayerName :: string
  selectedWord :: "string option"
  selectedCategory :: string
  currentPlayerIndex :: nat
  isRoleVisible :: bool
  timeLeft :: int
  isTimerActive :: bool
  spyCount :: int
  votedPlayer :: "Player option"
  victoryType :: "Victory option"

text \<open>
  \<open>selectedWord\<close> is declared a string in the source, but \<open>startGame\<close> stores
  \<open>category.words[i]\<close> in it, which is \<open>undefined\<close> when the word list is
  empty: \<open>None\<close> stands for that value, \<open>Some w\<close> for the string \<open>w\<close>.
\<close>

text \<open>The initial values of the \<open>useState\<close> calls (lines 42 to 53).\<close>

definition initialSession :: Session where
  "initialSession =
     \<lparr> gameState = Setup, players = [], newPlayerName = [], selectedWord = Some [],
       selectedCategory = [], currentPlayerIndex = 0, isRoleVisible = False,
       timeLeft = 300, isTimerActive = False, spyCount = 1, votedPlayer = None,
       victoryType = None \<rparr>"

text \<open>
  The table \<open>CATEGORIES\<close> is imported from \<open>./constants\<close>, which is not part of
  the sources at hand. Every function that reads it takes it as a parameter; an entry
  has the two fields the component uses.
\<close>

record Category =
  cat_name :: string
  words :: "string list"

datatype error = TypeError

text \<open>
  Reading \<open>xs[i]\<close> in JavaScript gives \<open>undefined\<close> beyond the end of the array.
\<close>

definition jsIndex :: "'a list \<Rightarrow> nat \<Rightarrow> 'a option" where
  "jsIndex xs i = (if i < length xs then Some (xs ! i) else None)"

text \<open>
  \<open>!p.isEliminated\<close> is true for an absent field and for \<open>false\<close>.
\<close>

definition eliminated :: "Player \<Rightarrow> bool" where
  "eliminated p = (isEliminated p = Some True)"

section \<open>The random source\<close>

text \<open>
  \<open>Math.random()\<close> is modelled by an infinite sequence of natural numbers, one per
  call, read at an explicit position. \<open>Math.floor(Math.random() * n)\<close> is an index
  below \<open>n\<close> (and \<open>0\<close> when \<open>n\<close> is \<open>0\<close>): the number drawn is reduced
  modulo \<open>n\<close>, so that every sequence is a legal source and every index can be drawn.
\<close>

type_synonym random_source = "nat \<Rightarrow> nat"

definition randomBelow :: "nat \<Rightarrow> nat \<Rightarrow> nat" where
  "randomBelow r n = (if n = 0 then 0 else r mod n)"

section \<open>Roster management\<close>

text \<open>
  \<open>String.prototype.trim\<close>. A \<open>char\<close> stands for a code unit below 256, so
  a \<open>string\<close> is a JavaScript string in that range; names with other characters
  are outside the model. Of these code units \<open>trim\<close> removes, at both ends, the
  white space and line terminators of the language: tab, line feed, vertical tab,
  form feed, carriage return, space and the no-break space.
\<close>

definition isWhitespace :: "char \<Rightarrow> bool" where
  "isWhitespace c =
     (c \<in> set [CHR 0x09, CHR 0x0A, CHR 0x0B, CHR 0x0C, CHR 0x0D, CHR 0x20, CHR 0xA0])"

definition trim :: "string \<Rightarrow> string" where
  "trim str = rev (dropWhile isWhitespace (rev (dropWhile isWhitespace str)))"

text \<open>
  \<open>addPlayer\<close> (lines 70 to 83). The identifier
  \<open>Math.random().toString(36).substr(2, 9)\<close> is a parameter: the string that was
  generated. A non-empty string is truthy.
\<close>

definition addPlayer :: "string \<Rightarrow> Session \<Rightarrow> Session" where
  "addPlayer newId s =
     (if trim (newPlayerName s) \<noteq> [] then
        s\<lparr> players := players s @
              [\<lparr> id_p = newId, name = trim (newPlayerName s), role = Role_player,
                 hasSeenRole = False, isEliminated = None \<rparr>],
           newPlayerName := [] \<rparr>
      else s)"

definition removePlayer :: "string \<Rightarrow> Session \<Rightarrow> Session" where
  "removePlayer i s = s\<lparr> players := filter (\<lambda>p. id_p p \<noteq> i) (players s) \<rparr>"

section \<open>Starting a round\<close>

text \<open>
  The loop of lines 99 to 104. It need not end: a source that keeps repeating an
  index already chosen keeps it running. \<open>None\<close> is the run that never returns.
  \<open>pos\<close> is the position of the next draw, \<open>n\<close> is \<open>players.length\<close>.
\<close>

partial_function (option) pickSpies ::
  "random_source \<Rightarrow> nat \<Rightarrow> nat \<Rightarrow> int \<Rightarrow> nat list \<Rightarrow> nat list option" where
  "pickSpies rnd pos n actualSpyCount spyIndices =
     (if int (length spyIndices) < actualSpyCount then
        (if randomBelow (rnd pos) n \<notin> set spyIndices
         then pickSpies rnd (Suc pos) n actualSpyCount (spyIndices @ [randomBelow (rnd pos) n])
         else pickSpies rnd (Suc pos) n actualSpyCount spyIndices)
      else Some spyIndices)"

declare pickSpies.simps [code]

text \<open>
  The \<open>players.map((p, i) => ...)\<close> of lines 106 to 110: the spread keeps \<open>id\<close>,
  \<open>name\<close> and \<open>isEliminated\<close>, and the two other fields are written.
\<close>

definition assignRoles :: "nat list \<Rightarrow> Player list \<Rightarrow> Player list" where
  "assignRoles spyIndices ps =
     map (\<lambda>(i, p). p\<lparr> role := (if i \<in> set spyIndices then Role_spy else Role_player),
                      hasSeenRole := False \<rparr>)
         (zip [0 ..< length ps] ps)"

text \<open>
  \<open>startGame\<close> (lines 89 to 119). The first draw picks the category, the second the
  word, the following ones the spies. With an empty table \<open>category\<close> is
  \<open>undefined\<close> and \<open>category.words\<close> throws before any setter has run. The
  result is \<open>None\<close> when the loop does not end, \<open>Some (Inl e)\<close> when the handler
  throws \<open>e\<close>, and \<open>Some (Inr s')\<close> when it returns and leaves the session \<open>s'\<close>.
\<close>

definition startGame :: "Category list \<Rightarrow> random_source \<Rightarrow> Session \<Rightarrow> (error + Session) option" where
  "startGame CATEGORIES rnd s =
     (if length (players s) < 3 then Some (Inr s)
      else
        (case jsIndex CATEGORIES (randomBelow (rnd 0) (length CATEGORIES)) of
           None \<Rightarrow> Some (Inl TypeError)
         | Some category \<Rightarrow>
             (case pickSpies rnd 2 (length (players s))
                     (min (spyCount s) (int (length (players s)) - 1)) [] of
                None \<Rightarrow> None
              | Some spyIndices \<Rightarrow>
                  Some (Inr (s\<lparr> players := assignRoles spyIndices (players s),
                               selectedWord :=
                                 jsIndex (words category)
                                   (randomBelow (rnd 1) (length (words category))),
                               selectedCategory := cat_name category,
                               gameState := Reveal,
                               currentPlayerIndex := 0,
                               isRoleVisible := False,
                               timeLeft := 300 \<rparr>)))))"

section \<open>The reveal phase\<close>

text \<open>
  \<open>nextPlayer\<close> (lines 121 to 139). Writing \<open>hasSeenRole\<close> of
  \<open>updatedPlayers[currentPlayerIndex]\<close> throws when the index is beyond the roster.
  The write goes to the object that the roster holds; the model replaces the entry.
  The one other cell that can hold a roster object is \<open>votedPlayer\<close>, and it is
  empty throughout the reveal phase (\<open>reachable_consistent\<close> below). The confetti
  call has no effect on the session.
\<close>

definition nextPlayer :: "Session \<Rightarrow> error + Session" where
  "nextPlayer s =
     (if currentPlayerIndex s < length (players s) then
        (let updatedPlayers =
               (players s)[currentPlayerIndex s :=
                  (players s ! currentPlayerIndex s)\<lparr> hasSeenRole := True \<rparr>]
         in if int (currentPlayerIndex s) < int (length (players s)) - 1
            then Inr (s\<lparr> players := updatedPlayers,
                         currentPlayerIndex := currentPlayerIndex s + 1,
                         isRoleVisible := False \<rparr>)
            else Inr (s\<lparr> players := updatedPlayers,
                         gameState := Playing,
                         isTimerActive := True \<rparr>))
      else Inl TypeError)"

section \<open>Voting and the end of a round\<close>

text \<open>\<open>handleVote\<close> (lines 141 to 158).\<close>

definition handleVote :: "Player \<Rightarrow> Session \<Rightarrow> Session" where
  "handleVote p s =
     s\<lparr> votedPlayer := Some p,
        players := map (\<lambda>q. if id_p q = id_p p then q\<lparr> isEliminated := Some True \<rparr> else q)
                       (players s),
        gameState := Elimination_result,
        isTimerActive := False \<rparr>"

text \<open>\<open>continueAfterElimination\<close> (lines 160 to 175).\<close>

definition remainingSpies :: "Session \<Rightarrow> Player list" where
  "remainingSpies s = filter (\<lambda>p. role p = Role_spy \<and> \<not> eliminated p) (players s)"

definition remainingPlayers :: "Session \<Rightarrow> Player list" where
  "remainingPlayers s = filter (\<lambda>p. role p = Role_player \<and> \<not> eliminated p) (players s)"

definition continueAfterElimination :: "Session \<Rightarrow> Session" where
  "continueAfterElimination s =
     (if length (remainingSpies s) = 0 then
        s\<lparr> victoryType := Some Victory_players, gameState := Summary \<rparr>
      else if length (remainingPlayers s) \<le> length (remainingSpies s) then
        s\<lparr> victoryType := Some Victory_spies, gameState := Summary \<rparr>
      else
        s\<lparr> gameState := Playing, isTimerActive := True, votedPlayer := None \<rparr>)"

text \<open>\<open>endGame\<close> (lines 177 to 187) and \<open>resetGame\<close> (lines 189 to 195).\<close>

definition endGame :: "Session \<Rightarrow> Session" where
  "endGame s = s\<lparr> gameState := Summary, isTimerActive := False, victoryType := None \<rparr>"

definition resetGame :: "Session \<Rightarrow> Session" where
  "resetGame s =
     s\<lparr> gameState := Setup,
        players := map (\<lambda>p. p\<lparr> role := Role_player, hasSeenRole := False,
                               isEliminated := Some False \<rparr>) (players s),
        isTimerActive := False,
        votedPlayer := None,
        victoryType := None \<rparr>"

section \<open>The countdown\<close>

text \<open>
  The effect of lines 58 to 68 runs after every render in which \<open>isTimerActive\<close> or
  \<open>timeLeft\<close> has changed. Its first branch installs an interval whose callback is
  \<open>setTimeLeft((prev) => prev - 1)\<close>; its second branch stops the timer at zero. The
  clean-up removes the interval before the effect runs again, so one interval exists
  exactly when the first branch was the last one taken.
\<close>

definition intervalScheduled :: "Session \<Rightarrow> bool" where
  "intervalScheduled s = (isTimerActive s \<and> timeLeft s > 0)"

definition intervalCallback :: "Session \<Rightarrow> Session" where
  "intervalCallback s = s\<lparr> timeLeft := timeLeft s - 1 \<rparr>"

definition timerEffect :: "Session \<Rightarrow> Session" where
  "timerEffect s =
     (if isTimerActive s \<and> timeLeft s > 0 then s
      else if timeLeft s = 0 then s\<lparr> isTimerActive := False \<rparr>
      else s)"

text \<open>
  One second passing: the callback of the interval, if there is one, and the effect
  that the render after it runs.
\<close>

definition tick :: "Session \<Rightarrow> Session" where
  "tick s = (if intervalScheduled s then timerEffect (intervalCallback s) else s)"

text \<open>
  \<open>formatTime\<close> (lines 197 to 201). \<open>Number.prototype.toString\<close> of an integer
  of magnitude below \<open>10\<^sup>2\<^sup>1\<close> is its decimal numeral, with a minus sign when
  negative; \<open>numberToString\<close> models it there, and the exponent notation of larger
  numbers is outside the model (the component formats \<open>timeLeft\<close>, which stays
  between 0 and 300). \<open>padStart(2, '0')\<close> fills
  from the left; \<open>%\<close> takes the sign of the dividend (the divisor here is the
  literal 60, never zero); \<open>Math.floor\<close> of the quotient is the floored division
  of \<open>int\<close>. \<open>digitChar\<close> is only applied to numbers below ten.
\<close>

definition digitChar :: "nat \<Rightarrow> char" where
  "digitChar d = ''0123456789'' ! d"

fun natToString :: "nat \<Rightarrow> string" where
  "natToString n =
     (if n < 10 then [digitChar n] else natToString (n div 10) @ [digitChar (n mod 10)])"

declare natToString.simps [simp del]

definition numberToString :: "int \<Rightarrow> string" where
  "numberToString i = (if i < 0 then CHR ''-'' # natToString (nat (- i)) else natToString (nat i))"

definition padStart :: "nat \<Rightarrow> char \<Rightarrow> string \<Rightarrow> string" where
  "padStart targetLength c str = replicate (targetLength - length str) c @ str"

definition jsRemainder :: "int \<Rightarrow> int \<Rightarrow> int" where
  "jsRemainder a b = sgn a * (\<bar>a\<bar> mod \<bar>b\<bar>)"

definition formatTime :: "int \<Rightarrow> string" where
  "formatTime seconds =
     numberToString (seconds div 60) @ '':'' @
     padStart 2 (CHR ''0'') (numberToString (jsRemainder seconds 60))"

section \<open>The screens: which handler can run in which state\<close>

text \<open>
  The render of lines 205 to 611 shows one screen per phase, and a control can be used
  only while its screen is shown and the control is not disabled. An event is a use of
  one control, or the interval firing. \<open>handler\<close> gives the session the handler
  leaves; \<open>None\<close> means that the control is absent or disabled in this state, or
  that the handler throws or does not return, in which cases no setter has run.

  \<^item> setup: the name field (\<open>ChangeName\<close>), the add button and the Enter key
    (\<open>ClickAdd\<close>, with the identifier generated), a remove button per listed player,
    the two spy-count buttons, and the start button, disabled below three players;
  \<^item> reveal: the eye button, shown while the role is hidden, and the next-player
    button, disabled while the role is hidden;
  \<^item> playing: pause and resume, the vote button, the end button;
  \<^item> voting: one button per entry of \<open>players.filter(p => !p.isEliminated)\<close>
    (\<open>ClickVoteFor i\<close> is the \<open>i\<close>-th of them), and the back button;
  \<^item> elimination result, shown only when \<open>votedPlayer\<close> is set: the continue button;
  \<^item> summary: the reset button.
\<close>

datatype Event =
    ChangeName string
  | ClickAdd string
  | ClickRemove string
  | ClickSpyCount int
  | ClickStart random_source
  | ClickEye
  | ClickNext
  | ClickPause
  | ClickVoteButton
  | ClickEndGame
  | ClickVoteFor nat
  | ClickBack
  | ClickContinue
  | ClickReset
  | TimerTick

definition voteButtons :: "Session \<Rightarrow> Player list" where
  "voteButtons s = filter (\<lambda>p. \<not> eliminated p) (players s)"

fun handler :: "Category list \<Rightarrow> Event \<Rightarrow> Session \<Rightarrow> Session option" where
  "handler C (ChangeName txt) s =
     (if gameState s = Setup then Some (s\<lparr> newPlayerName := txt \<rparr>) else None)"
| "handler C (ClickAdd newId) s =
     (if gameState s = Setup then Some (addPlayer newId s) else None)"
| "handler C (ClickRemove i) s =
     (if gameState s = Setup \<and> i \<in> set (map id_p (players s))
      then Some (removePlayer i s) else None)"
| "handler C (ClickSpyCount c) s =
     (if gameState s = Setup \<and> (c = 1 \<or> c = 2) then Some (s\<lparr> spyCount := c \<rparr>) else None)"
| "handler C (ClickStart rnd) s =
     (if gameState s = Setup \<and> \<not> length (players s) < 3 then
        (case startGame C rnd s of Some (Inr s') \<Rightarrow> Some s' | _ \<Rightarrow> None)
      else None)"
| "handler C ClickEye s =
     (if gameState s = Reveal \<and> \<not> isRoleVisible s
      then Some (s\<lparr> isRoleVisible := True \<rparr>) else None)"
| "handler C ClickNext s =
     (if gameState s = Reveal \<and> isRoleVisible s then
        (case nextPlayer s of Inr s' \<Rightarrow> Some s' | Inl e \<Rightarrow> None)
      else None)"
| "handler C ClickPause s =
     (if gameState s = Playing then Some (s\<lparr> isTimerActive := \<not> isTimerActive s \<rparr>) else None)"
| "handler C ClickVoteButton s =
     (if gameState s = Playing then Some (s\<lparr> gameState := Voting \<rparr>) else None)"
| "handler C ClickEndGame s =
     (if gameState s = Playing then Some (endGame s) else None)"
| "handler C (ClickVoteFor i) s =
     (if gameState s = Voting then
        (case jsIndex (voteButtons s) i of Some p \<Rightarrow> Some (handleVote p s) | None \<Rightarrow> None)
      else None)"
| "handler C ClickBack s =
     (if gameState s = Voting then Some (s\<lparr> gameState := Playing \<rparr>) else None)"
| "handler C ClickContinue s =
     (if gameState s = Elimination_result \<and> votedPlayer s \<noteq> None
      then Some (continueAfterElimination s) else None)"
| "handler C ClickReset s =
     (if gameState s = Summary then Some (resetGame s) else None)"
| "handler C TimerTick s =
     (if intervalScheduled s then Some (intervalCallback s) else None)"

text \<open>A step of the component: a handler, then the effect of the render it causes.\<close>

definition uiStep :: "Category list \<Rightarrow> Event \<Rightarrow> Session \<Rightarrow> Session option" where
  "uiStep C e s = map_option timerEffect (handler C e s)"

fun run :: "Category list \<Rightarrow> Event list \<Rightarrow> Session \<Rightarrow> Session option" where
  "run C [] s = Some s"
| "run C (e # es) s = (case uiStep C e s of None \<Rightarrow> None | Some s' \<Rightarrow> run C es s')"

text \<open>The states the component can be in: those a sequence of events leads to.\<close>

inductive reachable :: "Category list \<Rightarrow> Session \<Rightarrow> bool" for C :: "Category list" where
  reachable_init: "reachable C initialSession"
| reachable_step: "reachable C s \<Longrightarrow> uiStep C e s = Some s' \<Longrightarrow> reachable C s'"

text \<open>
  Properties that every reachable state has (\<open>reachable_consistent\<close> below):
  outside the elimination result and the summary no last-voted player is stored; a
  stored last-voted player is not marked eliminated, while the roster holds the same
  entry with the mark; and in the setup phase no roster entry is marked eliminated
  or as having seen a role.
\<close>

definition consistent :: "Session \<Rightarrow> bool" where
  "consistent s =
     ((gameState s = Elimination_result \<or> gameState s = Summary \<or> votedPlayer s = None) \<and>
      (case votedPlayer s of
         None \<Rightarrow> True
       | Some v \<Rightarrow> \<not> eliminated v \<and> v\<lparr> isEliminated := Some True \<rparr> \<in> set (players s)) \<and>
      (gameState s = Setup \<longrightarrow>
         list_all (\<lambda>p. \<not> eliminated p \<and> \<not> hasSeenRole p) (players s)))"

section \<open>A session to compare with: the roster entered for the first time\<close>

text \<open>
  The session in which the roster of \<open>s\<close> has just been typed in and no round has
  been played: every cell has its initial value except the roster, whose entries are
  as \<open>addPlayer\<close> creates them, the spy count and the name field.
\<close>

definition firstEver :: "Session \<Rightarrow> Session" where
  "firstEver s =
     initialSession
       \<lparr> players := map (\<lambda>p. \<lparr> id_p = id_p p, name = name p, role = Role_player,
                                 hasSeenRole = False, isEliminated = None \<rparr>) (players s),
         newPlayerName := newPlayerName s,
         spyCount := spyCount s \<rparr>"

text \<open>The events that start a round.\<close>

fun isStartEvent :: "Event \<Rightarrow> bool" where
  "isStartEvent (ClickStart rnd) = True"
| "isStartEvent e = False"

section \<open>An evening of four players\<close>

text \<open>
  A concrete game, used to run the definitions. The table has one category of two
  words; the random source counts \<open>0, 1, 2, \<dots>\<close>, so that a round with four
  players draws category \<open>0\<close>, word \<open>1\<close> and the spy at position \<open>2\<close>.
\<close>

definition exampleCategories :: "Category list" where
  "exampleCategories = [\<lparr> cat_name = ''food'', words = [''pizza'', ''rice''] \<rparr>]"

definition countingSource :: random_source where
  "countingSource = (\<lambda>i. i)"

definition ann :: Player where
  "ann = \<lparr> id_p = ''a1'', name = ''Ann'', role = Role_player, hasSeenRole = False,
           isEliminated = None \<rparr>"

definition bob :: Player where
  "bob = \<lparr> id_p = ''b2'', name = ''Bob'', role = Role_player, hasSeenRole = False,
           isEliminated = None \<rparr>"

definition cy :: Player where
  "cy = \<lparr> id_p = ''c3'', name = ''Cy'', role = Role_player, hasSeenRole = False,
          isEliminated = None \<rparr>"

definition dee :: Player where
  "dee = \<lparr> id_p = ''d4'', name = ''Dee'', role = Role_player, hasSeenRole = False,
           isEliminated = None \<rparr>"

definition seen :: "Player \<Rightarrow> Player" where
  "seen p = p\<lparr> hasSeenRole := True \<rparr>"

definition out :: "Player \<Rightarrow> Player" where
  "out p = p\<lparr> isEliminated := Some True \<rparr>"

definition asSpy :: "Player \<Rightarrow> Player" where
  "asSpy p = p\<lparr> role := Role_spy \<rparr>"

text \<open>The four names are typed in and added.\<close>

definition evLobby :: "Event list" where
  "evLobby = [ChangeName ''Ann'', ClickAdd ''a1'', ChangeName ''Bob '', ClickAdd ''b2'',
              ChangeName ''Cy'', ClickAdd ''c3'', ChangeName ''Dee'', ClickAdd ''d4'']"

definition s_lobby :: Session where
  "s_lobby = initialSession\<lparr> players := [ann, bob, cy, dee] \<rparr>"

text \<open>The round is started: Cy is the spy.\<close>

definition evReveal :: "Event list" where
  "evReveal = evLobby @ [ClickStart countingSource]"

definition s_reveal :: Session where
  "s_reveal = s_lobby\<lparr> players := [ann, bob, asSpy cy, dee], selectedWord := Some ''rice'',
                        selectedCategory := ''food'', gameState := Reveal \<rparr>"

text \<open>Each of the four looks at the role and passes the device on.\<close>

definition evPlaying :: "Event list" where
  "evPlaying = evReveal @ [ClickEye, ClickNext, ClickEye, ClickNext, ClickEye, ClickNext,
                           ClickEye, ClickNext]"

definition s_playing :: Session where
  "s_playing = s_reveal\<lparr> players := [seen ann, seen bob, seen (asSpy cy), seen dee],
                         currentPlayerIndex := 3, isRoleVisible := True,
                         gameState := Playing, isTimerActive := True \<rparr>"

text \<open>A second passes and the vote is opened.\<close>

definition evVoting :: "Event list" where
  "evVoting = evPlaying @ [TimerTick, ClickVoteButton]"

definition s_voting :: Session where
  "s_voting = s_playing\<lparr> timeLeft := 299, gameState := Voting \<rparr>"

text \<open>Ann, the first of the four buttons, is voted out; she was no spy.\<close>

definition evResult1 :: "Event list" where
  "evResult1 = evVoting @ [ClickVoteFor 0]"

definition s_result1 :: Session where
  "s_result1 = s_voting\<lparr> votedPlayer := Some (seen ann),
                         players := [out (seen ann), seen bob, seen (asSpy cy), seen dee],
                         gameState := Elimination_result, isTimerActive := False \<rparr>"

text \<open>Two players against one spy: the round goes on, and the vote is opened again.\<close>

definition evVoting2 :: "Event list" where
  "evVoting2 = evResult1 @ [ClickContinue, ClickVoteButton]"

definition s_voting2 :: Session where
  "s_voting2 = s_result1\<lparr> gameState := Voting, isTimerActive := True, votedPlayer := None \<rparr>"

text \<open>Bob, now the first of three buttons, is voted out: one player against one spy.\<close>

definition evResult2 :: "Event list" where
  "evResult2 = evVoting2 @ [ClickVoteFor 0]"

definition s_result2 :: Session where
  "s_result2 = s_voting2\<lparr> votedPlayer := Some (seen bob),
                          players := [out (seen ann), out (seen bob), seen (asSpy cy), seen dee],
                          gameState := Elimination_result, isTimerActive := False \<rparr>"

text \<open>The spy has won; the summary is shown, and the game is reset.\<close>

definition evSummary :: "Event list" where
  "evSummary = evResult2 @ [ClickContinue]"

definition s_summary :: Session where
  "s_summary = s_result2\<lparr> victoryType := Some Victory_spies, gameState := Summary \<rparr>"

definition evSetupAgain :: "Event list" where
  "evSetupAgain = evSummary @ [ClickReset]"

definition s_setupAgain :: Session where
  "s_setupAgain =
     s_summary\<lparr> gameState := Setup,
                players := [ann\<lparr> isEliminated := Some False \<rparr>, bob\<lparr> isEliminated := Some False \<rparr>,
                            cy\<lparr> isEliminated := Some False \<rparr>, dee\<lparr> isEliminated := Some False \<rparr>],
                votedPlayer := None, victoryType := None \<rparr>"

text \<open>The same four start a second round; the flags that the reset wrote stay.\<close>

definition unmarked :: "Player \<Rightarrow> Player" where
  "unmarked p = p\<lparr> isEliminated := Some False \<rparr>"

definition s_reveal2 :: Session where
  "s_reveal2 =
     s_setupAgain\<lparr> players := [unmarked ann, unmarked bob, asSpy (unmarked cy), unmarked dee],
                   gameState := Reveal, currentPlayerIndex := 0, isRoleVisible := False,
                   timeLeft := 300 \<rparr>"

text \<open>Another course of the first vote: Cy, the third button, is voted out.\<close>

definition evResultSpy :: "Event list" where
  "evResultSpy = evVoting @ [ClickVoteFor 2]"

definition s_resultSpy :: Session where
  "s_resultSpy = s_voting\<lparr> votedPlayer := Some (seen (asSpy cy)),
                           players := [seen ann, seen bob, out (seen (asSpy cy)), seen dee],
                           gameState := Elimination_result, isTimerActive := False \<rparr>"

section \<open>Facts about the random choice of spies\<close>

lemma randomBelow_less: "0 < n \<Longrightarrow> randomBelow r n < n"
  by (simp add: randomBelow_def)

lemma pickSpies_sound_aux:
  assumes "pickSpies rnd pos n k acc = Some idxs"
  shows "distinct acc \<and> set acc \<subseteq> {..<n} \<and> 0 < n \<and> int (length acc) \<le> k \<longrightarrow>
         distinct idxs \<and> set idxs \<subseteq> {..<n} \<and> int (length idxs) = k"
proof (rule pickSpies.raw_induct [where P = "\<lambda>rnd pos n k acc idxs.
         distinct acc \<and> set acc \<subseteq> {..<n} \<and> 0 < n \<and> int (length acc) \<le> k \<longrightarrow>
         distinct idxs \<and> set idxs \<subseteq> {..<n} \<and> int (length idxs) = k", OF _ assms])
  fix f :: "random_source \<Rightarrow> nat \<Rightarrow> nat \<Rightarrow> int \<Rightarrow> nat list \<Rightarrow> nat list option"
  fix rnd pos n k acc idxs
  assume IH: "\<And>rnd pos n k acc idxs. f rnd pos n k acc = Some idxs \<Longrightarrow>
         distinct acc \<and> set acc \<subseteq> {..<n} \<and> 0 < n \<and> int (length acc) \<le> k \<longrightarrow>
         distinct idxs \<and> set idxs \<subseteq> {..<n} \<and> int (length idxs) = k"
  assume body: "(if int (length acc) < k
      then if randomBelow (rnd pos) n \<notin> set acc
           then f rnd (Suc pos) n k (acc @ [randomBelow (rnd pos) n])
           else f rnd (Suc pos) n k acc
      else Some acc) = Some idxs"
  show "distinct acc \<and> set acc \<subseteq> {..<n} \<and> 0 < n \<and> int (length acc) \<le> k \<longrightarrow>
         distinct idxs \<and> set idxs \<subseteq> {..<n} \<and> int (length idxs) = k"
  proof
    assume prems: "distinct acc \<and> set acc \<subseteq> {..<n} \<and> 0 < n \<and> int (length acc) \<le> k"
    show "distinct idxs \<and> set idxs \<subseteq> {..<n} \<and> int (length idxs) = k"
    proof (cases "int (length acc) < k")
      case False
      with body prems show ?thesis by auto
    next
      case less: True
      show ?thesis
      proof (cases "randomBelow (rnd pos) n \<in> set acc")
        case True
        with less body have "f rnd (Suc pos) n k acc = Some idxs" by simp
        from IH [OF this] prems show ?thesis by simp
      next
        case False
        with less body have "f rnd (Suc pos) n k (acc @ [randomBelow (rnd pos) n]) = Some idxs"
          by simp
        from IH [OF this] False less prems randomBelow_less [of n "rnd pos"]
        show ?thesis by auto
      qed
    qed
  qed
qed

lemma pickSpies_sound:
  "pickSpies rnd pos n k acc = Some idxs \<Longrightarrow> distinct acc \<Longrightarrow> set acc \<subseteq> {..<n} \<Longrightarrow> 0 < n \<Longrightarrow>
   int (length acc) \<le> k \<Longrightarrow> distinct idxs \<and> set idxs \<subseteq> {..<n} \<and> int (length idxs) = k"
  using pickSpies_sound_aux by blast

lemma pickSpies_returns:
  assumes "\<forall>i<n. i \<in> set acc \<or> (\<exists>j. pos \<le> j \<and> j < M \<and> randomBelow (rnd j) n = i)"
    and "k \<le> int n" and "distinct acc" and "set acc \<subseteq> {..<n}"
  shows "\<exists>idxs. pickSpies rnd pos n k acc = Some idxs"
  using assms
proof (induction "M - pos" arbitrary: pos acc)
  case 0
  show ?case
  proof (cases "int (length acc) < k")
    case False
    then show ?thesis by (subst pickSpies.simps) simp
  next
    case True
    from 0 have "\<forall>i<n. i \<in> set acc" by auto
    then have "{..<n} \<subseteq> set acc" by auto
    then have "card {..<n} \<le> card (set acc)" by (intro card_mono) simp_all
    then have "n \<le> length acc" using "0.prems"(3) by (simp add: distinct_card)
    with True "0.prems"(2) show ?thesis by linarith
  qed
next
  case (Suc d)
  show ?case
  proof (cases "int (length acc) < k")
    case False
    then show ?thesis by (subst pickSpies.simps) simp
  next
    case True
    let ?r = "randomBelow (rnd pos) n"
    have "0 < n" using True Suc.prems(2) by auto
    then have rn: "?r < n" by (rule randomBelow_less)
    let ?acc' = "if ?r \<in> set acc then acc else acc @ [?r]"
    have d: "d = M - Suc pos" using Suc.hyps(2) by simp
    have cover: "\<forall>i<n. i \<in> set ?acc' \<or> (\<exists>j. Suc pos \<le> j \<and> j < M \<and> randomBelow (rnd j) n = i)"
    proof (intro allI impI)
      fix i assume "i < n"
      with Suc.prems(1) have "i \<in> set acc \<or> (\<exists>j. pos \<le> j \<and> j < M \<and> randomBelow (rnd j) n = i)"
        by blast
      then show "i \<in> set ?acc' \<or> (\<exists>j. Suc pos \<le> j \<and> j < M \<and> randomBelow (rnd j) n = i)"
      proof
        assume "i \<in> set acc" then show ?thesis by simp
      next
        assume "\<exists>j. pos \<le> j \<and> j < M \<and> randomBelow (rnd j) n = i"
        then obtain j where j: "pos \<le> j" "j < M" "randomBelow (rnd j) n = i" by blast
        show ?thesis
        proof (cases "j = pos")
          case True with j show ?thesis by auto
        next
          case False with j have "Suc pos \<le> j" by simp
          with j show ?thesis by blast
        qed
      qed
    qed
    have "\<exists>idxs. pickSpies rnd (Suc pos) n k ?acc' = Some idxs"
      by (rule Suc.hyps(1) [OF d cover Suc.prems(2)]) (use Suc.prems rn in auto)
    with True show ?thesis by (subst pickSpies.simps) auto
  qed
qed

lemma length_assignRoles: "length (assignRoles idxs ps) = length ps"
  by (simp add: assignRoles_def)

lemma nth_assignRoles:
  "i < length ps \<Longrightarrow> assignRoles idxs ps ! i =
     (ps ! i)\<lparr> role := (if i \<in> set idxs then Role_spy else Role_player), hasSeenRole := False \<rparr>"
  by (simp add: assignRoles_def)

lemma spies_assignRoles:
  assumes "distinct idxs" "set idxs \<subseteq> {..<length ps}"
  shows "length (filter (\<lambda>p. role p = Role_spy) (assignRoles idxs ps)) = length idxs"
proof -
  have "length (filter (\<lambda>p. role p = Role_spy) (assignRoles idxs ps))
      = length (filter (\<lambda>ip. fst ip \<in> set idxs) (zip [0 ..< length ps] ps))"
    by (simp add: assignRoles_def filter_map o_def case_prod_beta)
  also have "\<dots> = length (filter (\<lambda>i. i \<in> set idxs) (map fst (zip [0 ..< length ps] ps)))"
    by (simp only: filter_map o_def length_map)
  also have "\<dots> = length (filter (\<lambda>i. i \<in> set idxs) [0 ..< length ps])"
    by simp
  also have "\<dots> = card ({i. i \<in> set idxs} \<inter> set [0 ..< length ps])"
    by (rule distinct_length_filter) simp
  also have "{i. i \<in> set idxs} \<inter> set [0 ..< length ps] = set idxs"
    using assms(2) by auto
  also have "card (set idxs) = length idxs"
    using assms(1) by (rule distinct_card)
  finally show ?thesis .
qed

lemmas example_defs = exampleCategories_def countingSource_def ann_def bob_def cy_def dee_def
  seen_def out_def asSpy_def s_lobby_def s_reveal_def s_playing_def s_voting_def s_result1_def
  s_voting2_def s_result2_def s_summary_def s_setupAgain_def s_resultSpy_def
  unmarked_def s_reveal2_def
  initialSession_def

lemma startGame_returned:
  assumes "startGame C rnd s = Some (Inr s')" and "3 \<le> length (players s)"
  shows "\<exists>category spyIndices.
           jsIndex C (randomBelow (rnd 0) (length C)) = Some category \<and>
           pickSpies rnd 2 (length (players s))
             (min (spyCount s) (int (length (players s)) - 1)) [] = Some spyIndices \<and>
           s' = s\<lparr> players := assignRoles spyIndices (players s),
                   selectedWord := jsIndex (words category)
                                     (randomBelow (rnd 1) (length (words category))),
                   selectedCategory := cat_name category,
                   gameState := Reveal, currentPlayerIndex := 0, isRoleVisible := False,
                   timeLeft := 300 \<rparr>"
  using assms by (auto simp: startGame_def split: option.splits if_splits)

lemma startGame_returns:
  assumes "C \<noteq> []"
    and "\<forall>i<length (players s). \<exists>j. 2 \<le> j \<and> j < M \<and> randomBelow (rnd j) (length (players s)) = i"
  shows "\<exists>s'. startGame C rnd s = Some (Inr s')"
proof (cases "length (players s) < 3")
  case True
  then show ?thesis by (simp add: startGame_def)
next
  case False
  have "randomBelow (rnd 0) (length C) < length C"
    using assms(1) by (simp add: randomBelow_less)
  then obtain category where c: "jsIndex C (randomBelow (rnd 0) (length C)) = Some category"
    by (simp add: jsIndex_def)
  have "\<exists>idxs. pickSpies rnd 2 (length (players s))
                  (min (spyCount s) (int (length (players s)) - 1)) [] = Some idxs"
    by (rule pickSpies_returns [where M = M]) (use assms(2) in auto)
  then obtain idxs where "pickSpies rnd 2 (length (players s))
                  (min (spyCount s) (int (length (players s)) - 1)) [] = Some idxs" ..
  with c False show ?thesis by (simp add: startGame_def)
qed

section \<open>Starting a round: the assignment of roles\<close>

text \<open>
  Claim C1. For a roster of \<open>N \<ge> 3\<close> players and a configured spy count \<open>k\<close> of
  1 or 2, a call of \<open>startGame\<close> that returns leaves exactly \<open>min k (N - 1)\<close>
  players with the role spy; the spies sit at distinct positions of the roster, and
  every player at another position has the role player. And the call does return
  when the table of categories is not empty and the random source, from its third
  draw on, produces every position of the roster.
\<close>

theorem startGame_assigns_spies:
  assumes "3 \<le> length (players s)" and "spyCount s = 1 \<or> spyCount s = 2"
  shows "(\<forall>s'. startGame CATEGORIES rnd s = Some (Inr s') \<longrightarrow>
            length (filter (\<lambda>p. role p = Role_spy) (players s'))
              = nat (min (spyCount s) (int (length (players s)) - 1)) \<and>
            (\<exists>spyIndices.
               distinct spyIndices \<and> set spyIndices \<subseteq> {..<length (players s)} \<and>
               length spyIndices = nat (min (spyCount s) (int (length (players s)) - 1)) \<and>
               length (players s') = length (players s) \<and>
               (\<forall>i<length (players s).
                  role (players s' ! i)
                    = (if i \<in> set spyIndices then Role_spy else Role_player)))) \<and>
         (CATEGORIES \<noteq> [] \<and>
          (\<forall>i<length (players s).
             \<exists>j. 2 \<le> j \<and> j < M \<and> randomBelow (rnd j) (length (players s)) = i) \<longrightarrow>
            (\<exists>s'. startGame CATEGORIES rnd s = Some (Inr s')))"
proof (intro conjI allI impI)
  fix s'
  assume ret: "startGame CATEGORIES rnd s = Some (Inr s')"
  let ?n = "length (players s)"
  let ?k = "min (spyCount s) (int ?n - 1)"
  from startGame_returned [OF ret assms(1)]
  obtain spyIndices where pick: "pickSpies rnd 2 ?n ?k [] = Some spyIndices"
    and ps: "players s' = assignRoles spyIndices (players s)"
    by auto
  have k: "0 \<le> ?k" using assms by auto
  have "distinct spyIndices \<and> set spyIndices \<subseteq> {..<?n} \<and> int (length spyIndices) = ?k"
    by (rule pickSpies_sound [OF pick]) (use assms(1) k in auto)
  then have d: "distinct spyIndices" and sub: "set spyIndices \<subseteq> {..<?n}"
    and len: "length spyIndices = nat ?k"
    by auto
  show "length (filter (\<lambda>p. role p = Role_spy) (players s')) = nat ?k"
    using spies_assignRoles [OF d sub] ps len by simp
  have roles: "\<forall>i<?n. role (players s' ! i) = (if i \<in> set spyIndices then Role_spy else Role_player)"
    by (simp add: ps nth_assignRoles)
  have "length (players s') = ?n" by (simp add: ps length_assignRoles)
  with d sub len roles
  show "\<exists>spyIndices.
          distinct spyIndices \<and> set spyIndices \<subseteq> {..<?n} \<and> length spyIndices = nat ?k \<and>
          length (players s') = ?n \<and>
          (\<forall>i<?n. role (players s' ! i) = (if i \<in> set spyIndices then Role_spy else Role_player))"
    by blast
next
  assume "CATEGORIES \<noteq> [] \<and>
          (\<forall>i<length (players s).
             \<exists>j. 2 \<le> j \<and> j < M \<and> randomBelow (rnd j) (length (players s)) = i)"
  then show "\<exists>s'. startGame CATEGORIES rnd s = Some (Inr s')"
    using startGame_returns [of CATEGORIES s M rnd] by blast
qed

theorem startGame_assigns_spies_witness:
  "3 \<le> length (players s_lobby) \<and> spyCount s_lobby = 1 \<and>
   startGame exampleCategories countingSource s_lobby = Some (Inr s_reveal) \<and>
   length (filter (\<lambda>p. role p = Role_spy) (players s_reveal)) = 1 \<and>
   map role (players s_reveal) = [Role_player, Role_player, Role_spy, Role_player]"
proof -
  have n: "3 \<le> length (players s_lobby)" by (simp add: example_defs)
  have k: "spyCount s_lobby = 1" by (simp add: example_defs)
  have r: "startGame exampleCategories countingSource s_lobby = Some (Inr s_reveal)"
    by code_simp
  from startGame_assigns_spies [OF n, of exampleCategories countingSource] k r
  have "length (filter (\<lambda>p. role p = Role_spy) (players s_reveal))
          = nat (min (spyCount s_lobby) (int (length (players s_lobby)) - 1))"
    by blast
  then have c: "length (filter (\<lambda>p. role p = Role_spy) (players s_reveal)) = 1"
    by (simp add: example_defs)
  have m: "map role (players s_reveal) = [Role_player, Role_player, Role_spy, Role_player]"
    by (simp add: example_defs)
  from n k r c m show ?thesis by blast
qed

section \<open>A round with too few players\<close>

text \<open>
  Claim C10 as it is stated fails in one point: \<open>startGame\<close> does not fail. Line 90
  is a bare \<open>return\<close>, and the component has no error value for too few players.
  With two players in the roster the call returns as every other call does, and
  what it returns with is the session it found.
\<close>

theorem startGame_insufficient_players_counterexample:
  "gameState (s_lobby\<lparr> players := [ann, bob] \<rparr>) = Setup \<and>
   length (players (s_lobby\<lparr> players := [ann, bob] \<rparr>)) < 3 \<and>
   startGame exampleCategories countingSource (s_lobby\<lparr> players := [ann, bob] \<rparr>)
     = Some (Inr (s_lobby\<lparr> players := [ann, bob] \<rparr>)) \<and>
   startGame exampleCategories countingSource (s_lobby\<lparr> players := [ann, bob] \<rparr>)
     \<noteq> Some (Inl TypeError)"
  by (simp add: startGame_def example_defs)

text \<open>
  Claim C10, amended. With fewer than three players in the roster \<open>startGame\<close> is a
  silent no-op: whatever the table of categories and the random source, it returns
  at once, it neither loops nor throws or reports any error, and the session it
  leaves is the session it found, so the phase is still setup and roles, word,
  category, reveal index and timer are what they were.
\<close>

theorem startGame_too_few_players:
  "gameState s = Setup \<Longrightarrow> length (players s) < 3 \<Longrightarrow>
   startGame CATEGORIES rnd s = Some (Inr s) \<and> startGame CATEGORIES rnd s \<noteq> Some (Inl e)"
  by (simp add: startGame_def)

theorem startGame_too_few_players_witness:
  "gameState (s_lobby\<lparr> players := [ann] \<rparr>) = Setup \<and>
   length (players (s_lobby\<lparr> players := [ann] \<rparr>)) < 3 \<and>
   startGame exampleCategories countingSource (s_lobby\<lparr> players := [ann] \<rparr>)
     = Some (Inr (s_lobby\<lparr> players := [ann] \<rparr>))"
  using startGame_too_few_players [of "s_lobby\<lparr> players := [ann] \<rparr>" exampleCategories countingSource]
  by (simp add: example_defs)

section \<open>After an elimination\<close>

text \<open>
  Claim C2. In the phase elimination result, \<open>continueAfterElimination\<close> decides as
  follows. If no spy remains that is not eliminated, the players win and the phase is
  summary. Otherwise, if the players that are not spies and not eliminated are at most
  as many as the remaining spies (one against one is enough), the spies win and the
  phase is summary. Otherwise the phase is playing again, the timer is set running
  again and the last-voted player is cleared. In each case nothing else in the
  session changes; the remaining time in particular is what it was.
\<close>

theorem continueAfterElimination_outcome:
  assumes "gameState s = Elimination_result"
  shows
    "(length (filter (\<lambda>p. role p = Role_spy \<and> isEliminated p \<noteq> Some True) (players s)) = 0 \<longrightarrow>
        continueAfterElimination s = s\<lparr> victoryType := Some Victory_players, gameState := Summary \<rparr>) \<and>
     (length (filter (\<lambda>p. role p = Role_spy \<and> isEliminated p \<noteq> Some True) (players s)) \<noteq> 0 \<and>
      length (filter (\<lambda>p. role p \<noteq> Role_spy \<and> isEliminated p \<noteq> Some True) (players s))
        \<le> length (filter (\<lambda>p. role p = Role_spy \<and> isEliminated p \<noteq> Some True) (players s)) \<longrightarrow>
        continueAfterElimination s = s\<lparr> victoryType := Some Victory_spies, gameState := Summary \<rparr>) \<and>
     (length (filter (\<lambda>p. role p = Role_spy \<and> isEliminated p \<noteq> Some True) (players s)) \<noteq> 0 \<and>
      length (filter (\<lambda>p. role p = Role_spy \<and> isEliminated p \<noteq> Some True) (players s))
        < length (filter (\<lambda>p. role p \<noteq> Role_spy \<and> isEliminated p \<noteq> Some True) (players s)) \<longrightarrow>
        continueAfterElimination s = s\<lparr> gameState := Playing, isTimerActive := True, votedPlayer := None \<rparr>)"
proof -
  have r: "(role p \<noteq> Role_spy) = (role p = Role_player)" for p :: Player
    by (cases "role p") simp_all
  have sp: "filter (\<lambda>p. role p = Role_spy \<and> isEliminated p \<noteq> Some True) (players s) = remainingSpies s"
    by (simp add: remainingSpies_def eliminated_def)
  have pl: "filter (\<lambda>p. role p \<noteq> Role_spy \<and> isEliminated p \<noteq> Some True) (players s) = remainingPlayers s"
    by (simp add: remainingPlayers_def eliminated_def r)
  show ?thesis
    unfolding sp pl by (simp add: continueAfterElimination_def)
qed

theorem continueAfterElimination_outcome_witness:
  "gameState s_resultSpy = Elimination_result \<and>
   continueAfterElimination s_resultSpy
     = s_resultSpy\<lparr> victoryType := Some Victory_players, gameState := Summary \<rparr> \<and>
   gameState s_result2 = Elimination_result \<and>
   continueAfterElimination s_result2
     = s_result2\<lparr> victoryType := Some Victory_spies, gameState := Summary \<rparr> \<and>
   gameState s_result1 = Elimination_result \<and>
   continueAfterElimination s_result1
     = s_result1\<lparr> gameState := Playing, isTimerActive := True, votedPlayer := None \<rparr>"
proof -
  have g: "gameState s_resultSpy = Elimination_result" "gameState s_result2 = Elimination_result"
    "gameState s_result1 = Elimination_result"
    by (simp_all add: example_defs)
  from continueAfterElimination_outcome [OF g(1)]
  have a: "continueAfterElimination s_resultSpy
     = s_resultSpy\<lparr> victoryType := Some Victory_players, gameState := Summary \<rparr>"
    by (simp add: example_defs)
  from continueAfterElimination_outcome [OF g(2)]
  have b: "continueAfterElimination s_result2
     = s_result2\<lparr> victoryType := Some Victory_spies, gameState := Summary \<rparr>"
    by (simp add: example_defs)
  from continueAfterElimination_outcome [OF g(3)]
  have c: "continueAfterElimination s_result1
     = s_result1\<lparr> gameState := Playing, isTimerActive := True, votedPlayer := None \<rparr>"
    by (simp add: example_defs)
  from g a b c show ?thesis by simp
qed

section \<open>The countdown from five minutes\<close>

lemma tick_running:
  assumes "isTimerActive s" and "1 < timeLeft s"
  shows "tick s = s\<lparr> timeLeft := timeLeft s - 1 \<rparr>"
  using assms by (simp add: tick_def intervalScheduled_def intervalCallback_def timerEffect_def)

lemma tick_last:
  assumes "isTimerActive s" and "timeLeft s = 1"
  shows "tick s = s\<lparr> timeLeft := 0, isTimerActive := False \<rparr>"
  using assms by (simp add: tick_def intervalScheduled_def intervalCallback_def timerEffect_def)

lemma tick_funpow_running:
  "isTimerActive s \<Longrightarrow> int n < timeLeft s \<Longrightarrow> (tick ^^ n) s = s\<lparr> timeLeft := timeLeft s - int n \<rparr>"
proof (induction n)
  case 0
  then show ?case by simp
next
  case (Suc n)
  then have "(tick ^^ n) s = s\<lparr> timeLeft := timeLeft s - int n \<rparr>" by simp
  moreover have "tick (s\<lparr> timeLeft := timeLeft s - int n \<rparr>)
      = s\<lparr> timeLeft := timeLeft s - int n \<rparr>\<lparr> timeLeft := timeLeft s - int n - 1 \<rparr>"
    using Suc.prems by (subst tick_running) simp_all
  ultimately show ?case by (simp add: algebra_simps)
qed

lemma tick_funpow_zero:
  assumes "isTimerActive s" and "timeLeft s = int (Suc n)"
  shows "(tick ^^ Suc n) s = s\<lparr> timeLeft := 0, isTimerActive := False \<rparr>"
proof -
  have "(tick ^^ n) s = s\<lparr> timeLeft := timeLeft s - int n \<rparr>"
    using assms by (intro tick_funpow_running) simp_all
  moreover have "tick (s\<lparr> timeLeft := timeLeft s - int n \<rparr>)
      = s\<lparr> timeLeft := timeLeft s - int n \<rparr>\<lparr> timeLeft := 0, isTimerActive := False \<rparr>"
    using assms by (subst tick_last) simp_all
  ultimately show ?thesis by simp
qed

lemma natToString_digit: "n < 10 \<Longrightarrow> natToString n = [digitChar n]"
  by (subst natToString.simps) simp

lemma natToString_two: "10 \<le> n \<Longrightarrow> n < 100 \<Longrightarrow> natToString n = [digitChar (n div 10), digitChar (n mod 10)]"
  by (subst natToString.simps) (simp add: natToString_digit)

lemma padStart_seconds:
  assumes "n < 60"
  shows "padStart 2 (CHR ''0'') (natToString n) = [digitChar (n div 10), digitChar (n mod 10)]"
proof (cases "n < 10")
  case True
  then show ?thesis by (simp add: padStart_def digitChar_def natToString_digit)
next
  case False
  with assms have "natToString n = [digitChar (n div 10), digitChar (n mod 10)]"
    by (intro natToString_two) simp_all
  then show ?thesis by (simp add: padStart_def)
qed

lemma formatTime_nonneg:
  assumes "0 \<le> t"
  shows "formatTime t = natToString (nat (t div 60)) @ '':'' @
           [digitChar (nat (t mod 60) div 10), digitChar (nat (t mod 60) mod 10)]"
proof -
  have m: "0 \<le> t div 60" using assms by (simp add: pos_imp_zdiv_nonneg_iff)
  have r: "jsRemainder t 60 = t mod 60"
    using assms by (cases "t = 0") (simp_all add: jsRemainder_def)
  have r0: "0 \<le> t mod 60" and r60: "t mod 60 < 60" by simp_all
  have "nat (t mod 60) < 60" using r60 by simp
  then have secs: "padStart 2 (CHR ''0'') (natToString (nat (t mod 60)))
      = [digitChar (nat (t mod 60) div 10), digitChar (nat (t mod 60) mod 10)]"
    by (rule padStart_seconds)
  have mins: "numberToString (t div 60) = natToString (nat (t div 60))"
    using m by (simp add: numberToString_def)
  have "numberToString (jsRemainder t 60) = natToString (nat (t mod 60))"
    using r0 by (simp add: numberToString_def r)
  with secs mins show ?thesis
    by (simp add: formatTime_def)
qed

lemma formatTime_zero: "formatTime 0 = ''0:00''"
  by (simp add: formatTime_nonneg digitChar_def natToString_digit)

text \<open>
  Claim C9. From 300 seconds with the timer running in the phase playing, each of the
  next 300 ticks lowers the remaining time by exactly one while the timer keeps
  running; after the 300th the remaining time is 0 and the timer has stopped by
  itself, the phase being playing throughout. The time is shown as the minutes, a
  colon and the seconds within the minute in two digits, which is \<open>0:00\<close> at zero.
\<close>

theorem countdown_from_300:
  assumes "timeLeft s = 300" and "isTimerActive s" and "gameState s = Playing"
  shows "(\<forall>n<300. timeLeft ((tick ^^ Suc n) s) = timeLeft ((tick ^^ n) s) - 1) \<and>
         (\<forall>n<300. isTimerActive ((tick ^^ n) s)) \<and>
         timeLeft ((tick ^^ 300) s) = 0 \<and>
         \<not> isTimerActive ((tick ^^ 300) s) \<and>
         (\<forall>n\<le>300. gameState ((tick ^^ n) s) = Playing) \<and>
         formatTime (timeLeft ((tick ^^ 300) s)) = ''0:00'' \<and>
         (\<forall>t\<ge>0. formatTime t = natToString (nat (t div 60)) @ '':'' @
                     [digitChar (nat (t mod 60) div 10), digitChar (nat (t mod 60) mod 10)])"
proof -
  have run: "(tick ^^ n) s = s\<lparr> timeLeft := 300 - int n \<rparr>" if "n < 300" for n
    using tick_funpow_running [of s n] assms that by simp
  have last: "(tick ^^ 300) s = s\<lparr> timeLeft := 0, isTimerActive := False \<rparr>"
    using tick_funpow_zero [of s 299] assms by simp
  have step: "timeLeft ((tick ^^ Suc n) s) = timeLeft ((tick ^^ n) s) - 1" if "n < 300" for n
  proof (cases "Suc n < 300")
    case True
    then show ?thesis using run [of n] run [of "Suc n"] that by simp
  next
    case False
    with that have "Suc n = 300" by simp
    then show ?thesis using run [of n] last that by simp
  qed
  have phase: "gameState ((tick ^^ n) s) = Playing" if "n \<le> 300" for n
  proof (cases "n < 300")
    case True
    then show ?thesis using run [of n] assms by simp
  next
    case False
    with that have "n = 300" by simp
    then show ?thesis using last assms by simp
  qed
  have active: "isTimerActive ((tick ^^ n) s)" if "n < 300" for n
    using run [OF that] assms by simp
  from step active phase last formatTime_zero formatTime_nonneg show ?thesis by simp
qed

theorem countdown_from_300_witness:
  "timeLeft s_playing = 300 \<and> isTimerActive s_playing \<and> gameState s_playing = Playing \<and>
   timeLeft ((tick ^^ 300) s_playing) = 0 \<and> \<not> isTimerActive ((tick ^^ 300) s_playing) \<and>
   timeLeft (tick s_playing) = 299 \<and> formatTime 299 = ''4:59''"
proof -
  have h: "timeLeft s_playing = 300" "isTimerActive s_playing" "gameState s_playing = Playing"
    by (simp_all add: example_defs)
  have z: "(0::nat) < 300" by simp
  have p: "(0::int) \<le> 299" by simp
  from countdown_from_300 [OF h] have
    a: "\<forall>n<300. timeLeft ((tick ^^ Suc n) s_playing) = timeLeft ((tick ^^ n) s_playing) - 1" and
    b: "timeLeft ((tick ^^ 300) s_playing) = 0" and
    c: "\<not> isTimerActive ((tick ^^ 300) s_playing)" and
    d: "\<forall>t\<ge>0. formatTime t = natToString (nat (t div 60)) @ '':'' @
                     [digitChar (nat (t mod 60) div 10), digitChar (nat (t mod 60) mod 10)]"
    by blast+
  from a z have "timeLeft ((tick ^^ Suc 0) s_playing) = timeLeft ((tick ^^ 0) s_playing) - 1"
    by blast
  then have e: "timeLeft (tick s_playing) = 299" using h by simp
  from d p have "formatTime 299 = natToString (nat (299 div 60)) @ '':'' @
                     [digitChar (nat (299 mod 60) div 10), digitChar (nat (299 mod 60) mod 10)]"
    by blast
  then have f: "formatTime 299 = ''4:59''" by (simp add: digitChar_def natToString_digit)
  from h b c e f show ?thesis by simp
qed

section \<open>What holds in every reachable state\<close>

lemma timerEffect_fields [simp]:
  "gameState (timerEffect s) = gameState s"
  "players (timerEffect s) = players s"
  "votedPlayer (timerEffect s) = votedPlayer s"
  "selectedWord (timerEffect s) = selectedWord s"
  "currentPlayerIndex (timerEffect s) = currentPlayerIndex s"
  "timeLeft (timerEffect s) = timeLeft s"
  by (simp_all add: timerEffect_def)

lemma uiStep_handler:
  "uiStep C e s = Some s' \<Longrightarrow> \<exists>h. handler C e s = Some h \<and> s' = timerEffect h"
  by (auto simp: uiStep_def)

lemma voteButtons_member:
  "jsIndex (voteButtons s) i = Some p \<Longrightarrow> p \<in> set (players s) \<and> \<not> eliminated p"
proof -
  assume "jsIndex (voteButtons s) i = Some p"
  then have "p \<in> set (voteButtons s)"
    by (auto simp: jsIndex_def split: if_splits)
  then show ?thesis by (simp add: voteButtons_def)
qed

lemma consistent_timerEffect: "consistent (timerEffect h) = consistent h"
  by (simp add: consistent_def split: option.split)

lemma handleVote_listed:
  assumes "p \<in> set (players s)"
  shows "p\<lparr> isEliminated := Some True \<rparr> \<in> set (players (handleVote p s))"
proof -
  have "(\<lambda>q. if id_p q = id_p p then q\<lparr> isEliminated := Some True \<rparr> else q) p
          \<in> (\<lambda>q. if id_p q = id_p p then q\<lparr> isEliminated := Some True \<rparr> else q) ` set (players s)"
    using assms by (rule imageI)
  then show ?thesis by (simp add: handleVote_def)
qed

lemma consistent_handler:
  assumes "consistent s" and "handler C e s = Some h"
  shows "consistent h"
proof (cases e)
  case (ChangeName typed)
  with assms show ?thesis by (auto simp: consistent_def split: if_splits)
next
  case (ClickAdd newId)
  with assms show ?thesis
    by (auto simp: consistent_def addPlayer_def eliminated_def split: if_splits)
next
  case (ClickRemove i)
  with assms show ?thesis
    by (auto simp: consistent_def removePlayer_def list_all_iff split: if_splits)
next
  case (ClickSpyCount c)
  with assms show ?thesis by (auto simp: consistent_def split: if_splits)
next
  case (ClickStart rnd)
  with assms have g: "gameState s = Setup" and n: "3 \<le> length (players s)"
    and r: "startGame C rnd s = Some (Inr h)"
    by (auto split: if_splits option.splits sum.splits)
  from assms(1) g have "votedPlayer s = None" by (simp add: consistent_def)
  with startGame_returned [OF r n] show ?thesis
    by (auto simp: consistent_def)
next
  case ClickEye
  with assms show ?thesis by (auto simp: consistent_def split: if_splits)
next
  case ClickNext
  with assms show ?thesis
    by (auto simp: consistent_def nextPlayer_def Let_def split: if_splits sum.splits)
next
  case ClickPause
  with assms show ?thesis by (auto simp: consistent_def split: if_splits)
next
  case ClickVoteButton
  with assms show ?thesis by (auto simp: consistent_def split: if_splits)
next
  case ClickEndGame
  with assms show ?thesis by (auto simp: consistent_def endGame_def split: if_splits)
next
  case (ClickVoteFor i)
  with assms obtain p where p: "jsIndex (voteButtons s) i = Some p" and h: "h = handleVote p s"
    by (auto split: if_splits option.splits)
  from voteButtons_member [OF p] have "p \<in> set (players s)" and ne: "\<not> eliminated p" by simp_all
  then have "p\<lparr> isEliminated := Some True \<rparr> \<in> set (players h)"
    unfolding h by (intro handleVote_listed)
  moreover have "votedPlayer h = Some p" "gameState h = Elimination_result"
    by (simp_all add: h handleVote_def)
  ultimately show ?thesis using ne by (simp add: consistent_def)
next
  case ClickBack
  with assms show ?thesis by (auto simp: consistent_def split: if_splits)
next
  case ClickContinue
  with assms show ?thesis
    by (auto simp: consistent_def continueAfterElimination_def split: if_splits option.splits)
next
  case ClickReset
  with assms show ?thesis
    by (auto simp: consistent_def resetGame_def list_all_iff eliminated_def split: if_splits)
next
  case TimerTick
  with assms show ?thesis
    by (auto simp: consistent_def intervalCallback_def split: if_splits option.splits)
qed

lemma reachable_consistent: "reachable C s \<Longrightarrow> consistent s"
proof (induction rule: reachable.induct)
  case reachable_init
  show ?case by (simp add: consistent_def initialSession_def)
next
  case (reachable_step s e s')
  from uiStep_handler [OF reachable_step.hyps(2)]
  obtain h where "handler C e s = Some h" and "s' = timerEffect h" by blast
  with consistent_handler [OF reachable_step.IH] show ?case
    by (simp add: consistent_timerEffect)
qed

lemma run_reachable: "reachable C s \<Longrightarrow> run C es s = Some s' \<Longrightarrow> reachable C s'"
proof (induction es arbitrary: s)
  case Nil
  then show ?case by simp
next
  case (Cons e es)
  from Cons.prems(2) obtain m where m: "uiStep C e s = Some m" and r: "run C es m = Some s'"
    by (auto split: option.splits)
  from Cons.prems(1) m have "reachable C m" by (rule reachable_step)
  then show ?case using r by (rule Cons.IH)
qed


lemma reachable_result1: "reachable exampleCategories s_result1"
proof -
  have "run exampleCategories evResult1 initialSession = Some s_result1"
    by code_simp
  with reachable_init show ?thesis by (rule run_reachable)
qed

section \<open>Elimination flags at the start of a round\<close>






section \<open>Passing the device on before the role was shown\<close>

text \<open>
  Claim C4. In the reveal phase, while the role-visibility flag is false, passing the
  device on is rejected and nothing happens: the next-player button, the one place
  from which \<open>nextPlayer\<close> is called, is disabled (line 372), so its click runs no
  handler; and whatever event the component does accept in such a state, the reveal
  index, the phase and the \<open>hasSeenRole\<close> flag of every player stay as they are.
\<close>

theorem next_button_needs_reveal:
  assumes "gameState s = Reveal" and "\<not> isRoleVisible s"
  shows "handler C ClickNext s = None \<and> uiStep C ClickNext s = None \<and>
         (\<forall>e s'. uiStep C e s = Some s' \<longrightarrow>
            currentPlayerIndex s' = currentPlayerIndex s \<and> gameState s' = Reveal \<and>
            map hasSeenRole (players s') = map hasSeenRole (players s))"
proof -
  have a: "handler C ClickNext s = None" "uiStep C ClickNext s = None"
    using assms by (simp_all add: uiStep_def)
  have b: "currentPlayerIndex s' = currentPlayerIndex s \<and> gameState s' = Reveal \<and>
           map hasSeenRole (players s') = map hasSeenRole (players s)"
    if "uiStep C e s = Some s'" for e s'
  proof -
    from uiStep_handler [OF that] obtain h where h: "handler C e s = Some h" and s': "s' = timerEffect h"
      by blast
    from h assms have "currentPlayerIndex h = currentPlayerIndex s \<and> gameState h = Reveal \<and>
           players h = players s"
      by (cases e) (auto simp: intervalCallback_def split: if_splits)
    then show ?thesis by (simp add: s')
  qed
  from a b show ?thesis by blast
qed

theorem next_button_needs_reveal_witness:
  "run exampleCategories evReveal initialSession = Some s_reveal \<and>
   gameState s_reveal = Reveal \<and> \<not> isRoleVisible s_reveal \<and>
   uiStep exampleCategories ClickNext s_reveal = None \<and>
   uiStep exampleCategories ClickEye s_reveal = Some (s_reveal\<lparr> isRoleVisible := True \<rparr>) \<and>
   currentPlayerIndex (s_reveal\<lparr> isRoleVisible := True \<rparr>) = currentPlayerIndex s_reveal"
proof -
  have r: "run exampleCategories evReveal initialSession = Some s_reveal"
    by code_simp
  have h: "gameState s_reveal = Reveal" "\<not> isRoleVisible s_reveal"
    by (simp_all add: example_defs)
  have e: "uiStep exampleCategories ClickEye s_reveal = Some (s_reveal\<lparr> isRoleVisible := True \<rparr>)"
    by (simp add: uiStep_def timerEffect_def example_defs)
  from next_button_needs_reveal [OF h, of exampleCategories]
  have "uiStep exampleCategories ClickNext s_reveal = None"
    and "\<forall>e s'. uiStep exampleCategories e s_reveal = Some s' \<longrightarrow>
            currentPlayerIndex s' = currentPlayerIndex s_reveal \<and> gameState s' = Reveal \<and>
            map hasSeenRole (players s') = map hasSeenRole (players s_reveal)"
    by blast+
  with r e h show ?thesis by blast
qed

section \<open>Resetting the game\<close>

text \<open>
  Claim C5 as it is stated fails: \<open>resetGame\<close> does not touch \<open>timeLeft\<close>. From
  the summary of the example, where 299 seconds remain, it leaves 299 and not the
  initial 300; and it writes \<open>isEliminated = false\<close> where a roster entered for the
  first time has the field unset.
\<close>

theorem resetGame_timer_counterexample:
  "gameState s_summary = Summary \<and> timeLeft initialSession = 300 \<and>
   timeLeft (resetGame s_summary) = 299 \<and>
   map isEliminated (players (resetGame s_summary)) = [Some False, Some False, Some False, Some False] \<and>
   map isEliminated (players (firstEver s_summary)) = [None, None, None, None]"
  by (simp add: example_defs resetGame_def firstEver_def)

lemma assignRoles_reset:
  "assignRoles idxs (players (resetGame s))
     = map (\<lambda>p. p\<lparr> isEliminated := Some False \<rparr>) (assignRoles idxs (players (firstEver s)))"
  by (rule nth_equalityI)
     (simp_all add: length_assignRoles nth_assignRoles resetGame_def firstEver_def)

lemma startGame_after_reset:
  assumes "3 \<le> length (players s)"
  shows "startGame C rnd (resetGame s)
           = map_option (map_sum id (\<lambda>t. t\<lparr> players := map (\<lambda>p. p\<lparr> isEliminated := Some False \<rparr>)
                                                              (players t) \<rparr>))
               (startGame C rnd (firstEver s))"
proof -
  have len: "length (players (resetGame s)) = length (players s)"
    "length (players (firstEver s)) = length (players s)"
    by (simp_all add: resetGame_def firstEver_def)
  have k: "spyCount (resetGame s) = spyCount s" "spyCount (firstEver s) = spyCount s"
    by (simp_all add: resetGame_def firstEver_def)
  have rec: "resetGame s\<lparr> players := ps, selectedWord := w, selectedCategory := c,
                 gameState := Reveal, currentPlayerIndex := 0, isRoleVisible := False, timeLeft := 300 \<rparr>
           = firstEver s\<lparr> players := ps, selectedWord := w, selectedCategory := c,
                 gameState := Reveal, currentPlayerIndex := 0, isRoleVisible := False, timeLeft := 300 \<rparr>"
    for ps w c
    by (cases s) (simp add: resetGame_def firstEver_def initialSession_def)
  show ?thesis
    using assms
    by (simp add: startGame_def len k assignRoles_reset rec split: option.split)
qed

text \<open>
  Claim C5, amended. From the summary, with a roster of at least three players,
  \<open>resetGame\<close> keeps every name and identifier, sets every role to player, every
  \<open>hasSeenRole\<close> and \<open>isEliminated\<close> to false, goes to setup, stops the timer and
  clears the last-voted player and the outcome; it leaves the remaining time as it
  is. \<open>startGame\<close> after it behaves as \<open>startGame\<close> on the same roster entered for
  the first time (same table, same random source: it returns, throws or loops
  alike), and a session it returns differs only in that \<open>isEliminated\<close> is false
  instead of unset; in particular the remaining time is then 300.
\<close>

theorem resetGame_round_trip:
  assumes "gameState s = Summary" and "3 \<le> length (players s)"
  shows "map id_p (players (resetGame s)) = map id_p (players s) \<and>
         map name (players (resetGame s)) = map name (players s) \<and>
         list_all (\<lambda>p. role p = Role_player \<and> hasSeenRole p = False \<and> isEliminated p = Some False)
           (players (resetGame s)) \<and>
         gameState (resetGame s) = Setup \<and>
         isTimerActive (resetGame s) = False \<and>
         votedPlayer (resetGame s) = None \<and>
         victoryType (resetGame s) = None \<and>
         timeLeft (resetGame s) = timeLeft s \<and>
         startGame C rnd (resetGame s)
           = map_option (map_sum id (\<lambda>t. t\<lparr> players := map (\<lambda>p. p\<lparr> isEliminated := Some False \<rparr>)
                                                              (players t) \<rparr>))
               (startGame C rnd (firstEver s)) \<and>
         (\<forall>t. startGame C rnd (resetGame s) = Some (Inr t) \<longrightarrow> timeLeft t = 300)"
proof -
  have a: "map id_p (players (resetGame s)) = map id_p (players s)"
    "map name (players (resetGame s)) = map name (players s)"
    by (simp_all add: resetGame_def o_def)
  have b: "list_all (\<lambda>p. role p = Role_player \<and> hasSeenRole p = False \<and> isEliminated p = Some False)
           (players (resetGame s))"
    by (simp add: resetGame_def list_all_iff)
  have c: "gameState (resetGame s) = Setup" "isTimerActive (resetGame s) = False"
    "votedPlayer (resetGame s) = None" "victoryType (resetGame s) = None"
    "timeLeft (resetGame s) = timeLeft s"
    by (simp_all add: resetGame_def)
  have d: "timeLeft t = 300" if "startGame C rnd (resetGame s) = Some (Inr t)" for t
  proof -
    have "3 \<le> length (players (resetGame s))" using assms(2) by (simp add: resetGame_def)
    from startGame_returned [OF that this] show ?thesis by auto
  qed
  from a b c d startGame_after_reset [OF assms(2)] show ?thesis by blast
qed

theorem resetGame_round_trip_witness:
  "gameState s_summary = Summary \<and> 3 \<le> length (players s_summary) \<and>
   timeLeft (resetGame s_summary) = timeLeft s_summary \<and>
   startGame exampleCategories countingSource (resetGame s_summary) = Some (Inr s_reveal2) \<and>
   timeLeft s_reveal2 = 300 \<and>
   firstEver s_summary = s_lobby \<and>
   startGame exampleCategories countingSource (firstEver s_summary) = Some (Inr s_reveal) \<and>
   s_reveal2 = s_reveal\<lparr> players := map unmarked (players s_reveal) \<rparr>"
proof -
  have h: "gameState s_summary = Summary" "3 \<le> length (players s_summary)"
    by (simp_all add: example_defs)
  have r: "startGame exampleCategories countingSource (resetGame s_summary) = Some (Inr s_reveal2)"
    by code_simp
  have f: "firstEver s_summary = s_lobby"
    by (simp add: firstEver_def example_defs)
  have r1: "startGame exampleCategories countingSource (firstEver s_summary) = Some (Inr s_reveal)"
    unfolding f by code_simp
  have d: "s_reveal2 = s_reveal\<lparr> players := map unmarked (players s_reveal) \<rparr>"
    by (simp add: example_defs)
  from resetGame_round_trip [OF h, of exampleCategories countingSource]
  have "timeLeft (resetGame s_summary) = timeLeft s_summary"
    and "\<forall>t. startGame exampleCategories countingSource (resetGame s_summary) = Some (Inr t)
           \<longrightarrow> timeLeft t = 300"
    by blast+
  with h r f r1 d show ?thesis by blast
qed

section \<open>Votes for players who are out or unknown\<close>

text \<open>
  Claim C6. In the voting phase a vote for a player who is eliminated already, or who
  is not in the roster, is rejected and nothing happens. \<open>handleVote\<close> is called
  from the buttons of the voting screen only, and these are built from
  \<open>players.filter(p => !p.isEliminated)\<close> (line 468): there is no button for such a
  player, and a click beyond the buttons runs no handler. Whatever event the
  component does accept in the voting phase either leaves every elimination flag
  and the last-voted player as they are, the phase staying voting or going back to
  playing, or is the vote for a player of the roster who is not eliminated.
\<close>

theorem votes_only_for_listed_players:
  assumes "gameState s = Voting"
  shows "(eliminated p \<or> p \<notin> set (players s) \<longrightarrow> p \<notin> set (voteButtons s)) \<and>
         (jsIndex (voteButtons s) i = None \<longrightarrow> uiStep C (ClickVoteFor i) s = None) \<and>
         (\<forall>e s'. uiStep C e s = Some s' \<longrightarrow>
            (players s' = players s \<and> votedPlayer s' = votedPlayer s \<and>
             (gameState s' = Voting \<or> gameState s' = Playing)) \<or>
            (\<exists>q. q \<in> set (players s) \<and> \<not> eliminated q \<and> q \<in> set (voteButtons s) \<and>
                  s' = timerEffect (handleVote q s)))"
proof -
  have a: "eliminated p \<or> p \<notin> set (players s) \<longrightarrow> p \<notin> set (voteButtons s)"
    by (auto simp: voteButtons_def)
  have b: "jsIndex (voteButtons s) i = None \<longrightarrow> uiStep C (ClickVoteFor i) s = None"
    using assms by (simp add: uiStep_def)
  have c: "(players s' = players s \<and> votedPlayer s' = votedPlayer s \<and>
             (gameState s' = Voting \<or> gameState s' = Playing)) \<or>
            (\<exists>q. q \<in> set (players s) \<and> \<not> eliminated q \<and> q \<in> set (voteButtons s) \<and>
                  s' = timerEffect (handleVote q s))"
    if step: "uiStep C e s = Some s'" for e s'
  proof -
    from uiStep_handler [OF step] obtain h where h: "handler C e s = Some h"
      and s': "s' = timerEffect h"
      by blast
    have "(players h = players s \<and> votedPlayer h = votedPlayer s \<and>
             (gameState h = Voting \<or> gameState h = Playing)) \<or>
          (\<exists>q. q \<in> set (players s) \<and> \<not> eliminated q \<and> q \<in> set (voteButtons s) \<and>
                h = handleVote q s)"
    proof (cases e)
      case (ClickVoteFor k)
      with h assms obtain q where q: "jsIndex (voteButtons s) k = Some q" and "h = handleVote q s"
        by (auto split: option.splits)
      moreover from q have "q \<in> set (voteButtons s)"
        by (auto simp: jsIndex_def split: if_splits)
      ultimately show ?thesis using voteButtons_member [of s k q] by blast
    qed (use h assms in \<open>auto simp: intervalCallback_def split: if_splits\<close>)
    then show ?thesis by (auto simp: s')
  qed
  from a b c show ?thesis by blast
qed

theorem votes_only_for_listed_players_witness:
  "run exampleCategories evVoting2 initialSession = Some s_voting2 \<and>
   gameState s_voting2 = Voting \<and>
   eliminated (out (seen ann)) \<and> out (seen ann) \<in> set (players s_voting2) \<and>
   out (seen ann) \<notin> set (voteButtons s_voting2) \<and>
   jsIndex (voteButtons s_voting2) 3 = None \<and>
   uiStep exampleCategories (ClickVoteFor 3) s_voting2 = None \<and>
   uiStep exampleCategories (ClickVoteFor 0) s_voting2 = Some s_result2 \<and>
   votedPlayer s_result2 = Some (seen bob)"
proof -
  have r: "run exampleCategories evVoting2 initialSession = Some s_voting2"
    by code_simp
  have g: "gameState s_voting2 = Voting" by (simp add: example_defs)
  have el: "eliminated (out (seen ann))" "out (seen ann) \<in> set (players s_voting2)"
    by (simp_all add: example_defs eliminated_def)
  have none: "jsIndex (voteButtons s_voting2) 3 = None"
    by (simp add: example_defs jsIndex_def voteButtons_def eliminated_def)
  have u: "uiStep exampleCategories (ClickVoteFor 0) s_voting2 = Some s_result2"
    by code_simp
  have v: "votedPlayer s_result2 = Some (seen bob)" by (simp add: example_defs)
  from votes_only_for_listed_players [OF g, of "out (seen ann)" 3 exampleCategories] el none
  have "out (seen ann) \<notin> set (voteButtons s_voting2)"
    and "uiStep exampleCategories (ClickVoteFor 3) s_voting2 = None"
    by blast+
  with r g el none u v show ?thesis by blast
qed

section \<open>The secret word outside a round\<close>

text \<open>
  Claim C7 as it is stated fails: \<open>resetGame\<close> does not touch \<open>selectedWord\<close>.
  The events of the example lead back to the setup phase, through \<open>resetGame\<close> after
  a finished round, with the word of that round still selected.
\<close>

theorem selectedWord_after_reset_counterexample:
  "run exampleCategories evSetupAgain initialSession = Some s_setupAgain \<and>
   s_setupAgain = timerEffect (resetGame s_summary) \<and>
   gameState s_setupAgain = Setup \<and> selectedWord s_setupAgain = Some ''rice''"
proof -
  have a: "run exampleCategories evSetupAgain initialSession = Some s_setupAgain"
    by code_simp
  have b: "s_setupAgain = timerEffect (resetGame s_summary)"
    by (simp add: example_defs timerEffect_def resetGame_def)
  have c: "gameState s_setupAgain = Setup" "selectedWord s_setupAgain = Some ''rice''"
    by (simp_all add: example_defs)
  show ?thesis by (intro conjI a b c)
qed

lemma handler_selectedWord:
  assumes "handler C e s = Some h" and "\<not> isStartEvent e"
  shows "selectedWord h = selectedWord s"
  using assms
  by (cases e)
     (auto simp: addPlayer_def removePlayer_def nextPlayer_def Let_def endGame_def handleVote_def
        continueAfterElimination_def resetGame_def intervalCallback_def
        split: if_splits option.splits sum.splits)

lemma uiStep_selectedWord:
  assumes "uiStep C e s = Some s'" and "\<not> isStartEvent e"
  shows "selectedWord s' = selectedWord s"
proof -
  from uiStep_handler [OF assms(1)] obtain h where "handler C e s = Some h" and "s' = timerEffect h"
    by blast
  with handler_selectedWord [OF _ assms(2)] show ?thesis by simp
qed

lemma run_selectedWord:
  "run C es s = Some s' \<Longrightarrow> list_all (\<lambda>e. \<not> isStartEvent e) es \<Longrightarrow> selectedWord s' = selectedWord s"
proof (induction es arbitrary: s)
  case Nil
  then show ?case by simp
next
  case (Cons e es)
  from Cons.prems(1) obtain m where m: "uiStep C e s = Some m" and r: "run C es m = Some s'"
    by (auto split: option.splits)
  from Cons.prems(2) have e: "\<not> isStartEvent e" and es: "list_all (\<lambda>e. \<not> isStartEvent e) es"
    by simp_all
  from Cons.IH [OF r es] uiStep_selectedWord [OF m e] show ?case by simp
qed

text \<open>
  Claim C7, amended. The selected word is the empty string in the initial state and in
  every state reached from it before the first round is started. Only starting a
  round changes the word: every other event keeps it, and \<open>resetGame\<close> in
  particular, so that in the setup phase after a round the word of that round is
  still selected.
\<close>

theorem selectedWord_changes_only_at_start:
  "selectedWord initialSession = Some [] \<and>
   (run C es initialSession = Some s \<and> list_all (\<lambda>e. \<not> isStartEvent e) es \<longrightarrow>
      selectedWord s = Some []) \<and>
   (uiStep C e s1 = Some s2 \<and> \<not> isStartEvent e \<longrightarrow> selectedWord s2 = selectedWord s1) \<and>
   selectedWord (resetGame s3) = selectedWord s3"
proof -
  have a: "selectedWord initialSession = Some []" by (simp add: initialSession_def)
  have b: "selectedWord s = Some []"
    if "run C es initialSession = Some s" and "list_all (\<lambda>e. \<not> isStartEvent e) es"
    using run_selectedWord [OF that] a by simp
  have c: "selectedWord (resetGame s3) = selectedWord s3" by (simp add: resetGame_def)
  from a b c uiStep_selectedWord [of C e s1 s2] show ?thesis by blast
qed

theorem selectedWord_changes_only_at_start_witness:
  "run exampleCategories evLobby initialSession = Some s_lobby \<and>
   list_all (\<lambda>e. \<not> isStartEvent e) evLobby \<and> gameState s_lobby = Setup \<and>
   selectedWord s_lobby = Some [] \<and>
   uiStep exampleCategories ClickReset s_summary = Some s_setupAgain \<and> \<not> isStartEvent ClickReset \<and>
   selectedWord s_setupAgain = selectedWord s_summary"
proof -
  have r: "run exampleCategories evLobby initialSession = Some s_lobby" by code_simp
  have n: "list_all (\<lambda>e. \<not> isStartEvent e) evLobby" by (simp add: evLobby_def)
  have g: "gameState s_lobby = Setup" by (simp add: example_defs)
  have u: "uiStep exampleCategories ClickReset s_summary = Some s_setupAgain" by code_simp
  have i: "\<not> isStartEvent ClickReset" by simp
  from selectedWord_changes_only_at_start
         [of exampleCategories evLobby s_lobby ClickReset s_summary s_setupAgain]
       r n g u i
  show ?thesis by blast
qed

section \<open>The last-voted player and the roster\<close>

text \<open>
  Claim C8 as it is stated fails: \<open>votedPlayer\<close> is a cell of its own, and
  \<open>handleVote\<close> stores in it the entry as it was before the vote. After the first
  vote of the example the last-voted player is Ann without the mark of elimination,
  while the roster entry of the same identifier has it.
\<close>

theorem votedPlayer_in_sync_counterexample:
  "run exampleCategories evResult1 initialSession = Some s_result1 \<and>
   s_result1 = timerEffect (handleVote (seen ann) s_voting) \<and>
   gameState s_result1 = Elimination_result \<and>
   votedPlayer s_result1 = Some (seen ann) \<and>
   isEliminated (seen ann) = None \<and>
   players s_result1 = [out (seen ann), seen bob, seen (asSpy cy), seen dee] \<and>
   id_p (out (seen ann)) = id_p (seen ann) \<and>
   isEliminated (out (seen ann)) = Some True"
proof -
  have a: "run exampleCategories evResult1 initialSession = Some s_result1"
    by code_simp
  have b: "s_result1 = timerEffect (handleVote (seen ann) s_voting)"
    by (simp add: example_defs timerEffect_def handleVote_def)
  have c: "gameState s_result1 = Elimination_result" "votedPlayer s_result1 = Some (seen ann)"
    "isEliminated (seen ann) = None"
    "players s_result1 = [out (seen ann), seen bob, seen (asSpy cy), seen dee]"
    "id_p (out (seen ann)) = id_p (seen ann)"
    "isEliminated (out (seen ann)) = Some True"
    by (simp_all add: example_defs)
  show ?thesis by (intro conjI a b c)
qed

text \<open>
  Claim C8, amended. \<open>handleVote\<close> stores the player it is given. In every reachable
  state in which the last-voted player is set, the phase is the elimination result or
  the summary, and the last-voted player is the roster entry as it was before the
  vote: it is not marked eliminated, and the roster holds the entry that differs from
  it in the mark alone (same identifier, name, role and \<open>hasSeenRole\<close>).
\<close>

theorem votedPlayer_is_snapshot:
  assumes "reachable C s" and "votedPlayer s = Some v"
  shows "(gameState s = Elimination_result \<or> gameState s = Summary) \<and>
         isEliminated v \<noteq> Some True \<and>
         v\<lparr> isEliminated := Some True \<rparr> \<in> set (players s) \<and>
         votedPlayer (handleVote p s0) = Some p"
proof -
  from reachable_consistent [OF assms(1)] assms(2)
  have "(gameState s = Elimination_result \<or> gameState s = Summary) \<and>
         \<not> eliminated v \<and> v\<lparr> isEliminated := Some True \<rparr> \<in> set (players s)"
    by (simp add: consistent_def)
  then show ?thesis by (simp add: eliminated_def handleVote_def)
qed

theorem votedPlayer_is_snapshot_witness:
  "reachable exampleCategories s_result1 \<and> votedPlayer s_result1 = Some (seen ann) \<and>
   isEliminated (seen ann) \<noteq> Some True \<and>
   (seen ann)\<lparr> isEliminated := Some True \<rparr> \<in> set (players s_result1)"
proof -
  have v: "votedPlayer s_result1 = Some (seen ann)" by (simp add: example_defs)
  from votedPlayer_is_snapshot [OF reachable_result1 v] reachable_result1 v
  show ?thesis by blast
qed

end
